theory Spec2Isabelle
  imports Main
begin

section \<open>Labelled arrays of the notebook\<close>

text \<open>
  The notebook \<^verbatim>\<open>STAC/Generating_composites.ipynb\<close> works on xarray objects. A band of
  the loaded dataset is an array with the dimensions \<open>(time, y, x)\<close>: a list of time
  steps, each a list of rows, each a list of pixels. A dataset is the dictionary of its
  named bands, kept as an association list because \<^verbatim>\<open>to_array\<close> stacks the bands in
  the dataset's order.

  The raster loader returns integer rasters (the quality band is compared with integer
  flag values), so a loaded pixel is an \<open>int\<close>. xarray's \<^verbatim>\<open>where\<close> promotes the
  array to floating point and writes not-a-number where the condition is false: a
  pixel of a masked array is an \<open>int option\<close>, \<open>None\<close> standing for not-a-number.
\<close>

type_synonym 'a cube = "'a list list list"

type_synonym 'a dataset = "(string \<times> 'a cube) list"

datatype py_error = AttributeError | ValueError

text \<open>The sizes of an array along \<open>time\<close>, \<open>y\<close> and \<open>x\<close>, kept per row.\<close>

definition dims :: "'a cube \<Rightarrow> nat list list" where
  "dims a = map (map length) a"

definition map_cube :: "('a \<Rightarrow> 'b) \<Rightarrow> 'a cube \<Rightarrow> 'b cube" where
  "map_cube f a = map (map (map f)) a"

definition zip_cube :: "('a \<Rightarrow> 'b \<Rightarrow> 'c) \<Rightarrow> 'a cube \<Rightarrow> 'b cube \<Rightarrow> 'c cube" where
  "zip_cube f a b = map2 (map2 (map2 f)) a b"

text \<open>\<^verbatim>\<open>DataArray.isin(values)\<close>: elementwise membership.\<close>

definition isin :: "int cube \<Rightarrow> int list \<Rightarrow> bool cube" where
  "isin a vals = map_cube (\<lambda>v. v \<in> set vals) a"

text \<open>\<^verbatim>\<open>cond == False\<close> on a boolean array: elementwise comparison with \<open>False\<close>.\<close>

definition eq_False :: "bool cube \<Rightarrow> bool cube" where
  "eq_False c = map_cube (\<lambda>b. b = False) c"

text \<open>The promotion of an integer array to floating point: every value is kept.\<close>

definition promote :: "'a cube \<Rightarrow> 'a option cube" where
  "promote a = map_cube Some a"

text \<open>
  \<^verbatim>\<open>DataArray.where(cond)\<close>: the value where the condition holds, not-a-number
  elsewhere.
\<close>

definition where_cube :: "'a option cube \<Rightarrow> bool cube \<Rightarrow> 'a option cube" where
  "where_cube a cond = zip_cube (\<lambda>v c. if c then v else None) a cond"

text \<open>\<^verbatim>\<open>Dataset.where(cond)\<close> applies \<^verbatim>\<open>where\<close> to every data variable.\<close>

definition Dataset_where :: "int dataset \<Rightarrow> bool cube \<Rightarrow> int option dataset" where
  "Dataset_where ds cond = map (\<lambda>(name, a). (name, where_cube (promote a) cond)) ds"

subsection \<open>Cloud masking\<close>

text \<open>
  \<^verbatim>\<open>
  mask_val = [21762, 21890, 21952, 22018, 22080, 22280, 23826, 23888, 24082, 24144, 55052]
  data_clean = data.where(data.qa_pixel.isin(mask_val) == False)
  \<close>
  Reading the attribute \<^verbatim>\<open>qa_pixel\<close> of a dataset without that band raises
  \<^verbatim>\<open>AttributeError\<close>.
\<close>

definition mask_val :: "int list" where
  "mask_val = [21762, 21890, 21952, 22018, 22080, 22280, 23826, 23888, 24082, 24144, 55052]"

definition data_clean :: "int dataset \<Rightarrow> py_error + int option dataset" where
  "data_clean data =
     (case map_of data ''qa_pixel'' of
        None \<Rightarrow> Inl AttributeError
      | Some qa \<Rightarrow> Inr (Dataset_where data (eq_False (isin qa mask_val))))"

subsection \<open>No-data masking of the stacked array\<close>

text \<open>
  \<^verbatim>\<open>
  da = data_clean.to_array(dim='variable')
  no_data_mask = da.isnull().any(dim='variable')
  da = da.where(~no_data_mask)
  \<close>
  \<^verbatim>\<open>to_array\<close> stacks the bands along a new leading dimension \<open>variable\<close>, in the
  dataset's order; a dataset without bands has nothing to stack and raises
  \<^verbatim>\<open>ValueError\<close>. The stacked array is the list of its bands.
\<close>

definition to_array :: "'a dataset \<Rightarrow> py_error + 'a cube list" where
  "to_array ds = (if ds = [] then Inl ValueError else Inr (map snd ds))"

text \<open>\<^verbatim>\<open>isnull()\<close>: elementwise test for not-a-number.\<close>

definition isnull :: "'a option cube \<Rightarrow> bool cube" where
  "isnull a = map_cube (\<lambda>v. v = None) a"

text \<open>
  \<^verbatim>\<open>any(dim='variable')\<close>: the disjunction along the leading dimension, taken band
  by band. With no band the result has no band to be applied to.
\<close>

fun any_variable :: "bool cube list \<Rightarrow> bool cube" where
  "any_variable [] = []"
| "any_variable (c # cs) = foldl (zip_cube (\<or>)) c cs"

text \<open>\<^verbatim>\<open>~mask\<close>: elementwise negation.\<close>

definition invert :: "bool cube \<Rightarrow> bool cube" where
  "invert c = map_cube Not c"

definition no_data_mask :: "'a option cube list \<Rightarrow> bool cube" where
  "no_data_mask da = any_variable (map isnull da)"

text \<open>
  \<^verbatim>\<open>da.where(~no_data_mask)\<close>: the condition has no \<open>variable\<close> dimension and is
  broadcast along it, so every band is masked with the same condition.
\<close>

definition mask_no_data :: "'a option cube list \<Rightarrow> 'a option cube list" where
  "mask_no_data da = map (\<lambda>band. where_cube band (invert (no_data_mask da))) da"

definition stacked_no_data_masked :: "'a option dataset \<Rightarrow> py_error + 'a option cube list" where
  "stacked_no_data_masked ds =
     (case to_array ds of Inl e \<Rightarrow> Inl e | Inr da \<Rightarrow> Inr (mask_no_data da))"

subsection \<open>Observations of a stacked array\<close>

text \<open>An array with \<open>T\<close> time steps of \<open>H\<close> rows of \<open>W\<close> pixels.\<close>

definition has_shape :: "nat \<Rightarrow> nat \<Rightarrow> nat \<Rightarrow> 'a cube \<Rightarrow> bool" where
  "has_shape T H W a = (dims a = replicate T (replicate H W))"

text \<open>
  The notebook reduces the stacked array along \<open>time\<close> with \<^verbatim>\<open>first\<close>, \<^verbatim>\<open>last\<close>
  and \<^verbatim>\<open>nearest\<close>, which it imports from the package \<^verbatim>\<open>dea_tools.datahandling\<close>;
  it only calls them, and their code is no part of this development. What such a reduction
  reads at a pixel is recorded instead: the validity bits of band \<open>b\<close> at the pixel
  \<open>(y, x)\<close>, one per time step.
\<close>

definition valid_series :: "'a option cube list \<Rightarrow> nat \<Rightarrow> nat \<Rightarrow> nat \<Rightarrow> bool list" where
  "valid_series da b y x = map (\<lambda>layer. layer ! y ! x \<noteq> None) (da ! b)"

section \<open>Indexing elementwise operations\<close>

lemma dims_length: "dims a = dims b \<Longrightarrow> length a = length b"
  unfolding dims_def by (rule map_eq_imp_length_eq)

lemma dims_row:
  assumes "dims a = dims b" and "t < length a"
  shows "length (a ! t) = length (b ! t)"
proof -
  have "t < length b" using assms dims_length by metis
  have "map length (a ! t) = map length (b ! t)"
    using assms \<open>t < length b\<close> unfolding dims_def by (metis nth_map)
  then show ?thesis by (rule map_eq_imp_length_eq)
qed

lemma dims_cell:
  assumes "dims a = dims b" and "t < length a" and "y < length (a ! t)"
  shows "length (a ! t ! y) = length (b ! t ! y)"
proof -
  have tb: "t < length b" using assms dims_length by metis
  have yb: "y < length (b ! t)" using assms dims_row by metis
  have "map length (a ! t) = map length (b ! t)"
    using assms(1,2) tb unfolding dims_def by (metis nth_map)
  then show ?thesis using assms(3) yb by (metis nth_map)
qed

lemma dims_map_cube: "dims (map_cube f a) = dims a"
  by (simp add: dims_def map_cube_def comp_def)

lemma nth_map_cube:
  "t < length a \<Longrightarrow> y < length (a ! t) \<Longrightarrow> x < length (a ! t ! y) \<Longrightarrow>
   map_cube f a ! t ! y ! x = f (a ! t ! y ! x)"
  by (simp add: map_cube_def)

lemma nth_zip_cube:
  assumes "dims a = dims b" and "t < length a" and "y < length (a ! t)"
    and "x < length (a ! t ! y)"
  shows "zip_cube f a b ! t ! y ! x = f (a ! t ! y ! x) (b ! t ! y ! x)"
proof -
  have tb: "t < length b" using assms dims_length by metis
  have yb: "y < length (b ! t)" using assms dims_row by metis
  have xb: "x < length (b ! t ! y)" using assms dims_cell by metis
  show ?thesis using assms(2-4) tb yb xb by (simp add: zip_cube_def)
qed

lemma dims_zip_cube:
  assumes "dims a = dims b"
  shows "dims (zip_cube f a b) = dims a"
proof (rule nth_equalityI)
  have lab: "length a = length b" using assms by (rule dims_length)
  show "length (dims (zip_cube f a b)) = length (dims a)"
    using lab by (simp add: dims_def zip_cube_def)
  fix t assume "t < length (dims (zip_cube f a b))"
  then have ta: "t < length a" using lab by (simp add: dims_def zip_cube_def)
  then have tb: "t < length b" using lab by simp
  have rows: "length (a ! t) = length (b ! t)" using assms ta by (rule dims_row)
  have "map length (map2 (map2 f) (a ! t) (b ! t)) = map length (a ! t)"
  proof (rule nth_equalityI)
    show "length (map length (map2 (map2 f) (a ! t) (b ! t))) = length (map length (a ! t))"
      using rows by simp
    fix y assume "y < length (map length (map2 (map2 f) (a ! t) (b ! t)))"
    then have ya: "y < length (a ! t)" using rows by simp
    then have yb: "y < length (b ! t)" using rows by simp
    have "length (a ! t ! y) = length (b ! t ! y)" using assms ta ya by (rule dims_cell)
    then show "map length (map2 (map2 f) (a ! t) (b ! t)) ! y = map length (a ! t) ! y"
      using ya yb by simp
  qed
  then show "dims (zip_cube f a b) ! t = dims a ! t"
    using ta tb by (simp add: dims_def zip_cube_def)
qed

lemma has_shape_dims: "has_shape T H W a \<Longrightarrow> has_shape T H W b \<Longrightarrow> dims a = dims b"
  by (simp add: has_shape_def)

lemma has_shape_length: "has_shape T H W a \<Longrightarrow> length a = T"
proof -
  assume "has_shape T H W a"
  then have "length (dims a) = length (replicate T (replicate H W))"
    by (simp add: has_shape_def)
  then show ?thesis by (simp add: dims_def)
qed

lemma has_shape_row:
  assumes "has_shape T H W a" and "t < T"
  shows "length (a ! t) = H"
proof -
  have ta: "t < length a" using assms has_shape_length by metis
  have "dims a ! t = replicate T (replicate H W) ! t"
    using assms(1) by (simp add: has_shape_def)
  then have "map length (a ! t) = replicate H W"
    using ta assms(2) by (simp add: dims_def)
  then have "length (map length (a ! t)) = length (replicate H W)" by simp
  then show ?thesis by simp
qed

lemma has_shape_cell:
  assumes "has_shape T H W a" and "t < T" and "y < H"
  shows "length (a ! t ! y) = W"
proof -
  have ta: "t < length a" using assms has_shape_length by metis
  have ya: "y < length (a ! t)" using assms has_shape_row by metis
  have "dims a ! t = replicate T (replicate H W) ! t"
    using assms(1) by (simp add: has_shape_def)
  then have "map length (a ! t) = replicate H W"
    using ta assms(2) by (simp add: dims_def)
  then have "map length (a ! t) ! y = replicate H W ! y" by simp
  then show ?thesis using ya assms(3) by simp
qed

lemma has_shape_map_cube: "has_shape T H W (map_cube f a) = has_shape T H W a"
  by (simp add: has_shape_def dims_map_cube)

lemma has_shape_zip_cube:
  "has_shape T H W a \<Longrightarrow> has_shape T H W b \<Longrightarrow> has_shape T H W (zip_cube f a b)"
  using dims_zip_cube [of a b f] by (simp add: has_shape_def)

lemma nth_zip_cube_shape:
  assumes "has_shape T H W a" and "has_shape T H W b" and "t < T" and "y < H" and "x < W"
  shows "zip_cube f a b ! t ! y ! x = f (a ! t ! y ! x) (b ! t ! y ! x)"
proof (rule nth_zip_cube)
  show "dims a = dims b" using assms(1,2) by (rule has_shape_dims)
  show "t < length a" using assms(1,3) has_shape_length by metis
  show "y < length (a ! t)" using assms(1,3,4) has_shape_row by metis
  show "x < length (a ! t ! y)" using assms(1,3,4,5) has_shape_cell by metis
qed

lemma nth_map_cube_shape:
  assumes "has_shape T H W a" and "t < T" and "y < H" and "x < W"
  shows "map_cube f a ! t ! y ! x = f (a ! t ! y ! x)"
proof (rule nth_map_cube)
  show "t < length a" using assms(1,2) has_shape_length by metis
  show "y < length (a ! t)" using assms(1-3) has_shape_row by metis
  show "x < length (a ! t ! y)" using assms has_shape_cell by metis
qed

section \<open>The disjunction over the bands\<close>

lemma foldl_or_shape:
  "has_shape T H W c \<Longrightarrow> \<forall>d \<in> set cs. has_shape T H W d \<Longrightarrow>
   has_shape T H W (foldl (zip_cube (\<or>)) c cs)"
proof (induction cs arbitrary: c)
  case Nil
  then show ?case by simp
next
  case (Cons d ds)
  have "has_shape T H W (zip_cube (\<or>) c d)"
    using Cons.prems by (simp add: has_shape_zip_cube)
  then show ?case using Cons.IH Cons.prems by simp
qed

lemma foldl_or_nth:
  "has_shape T H W c \<Longrightarrow> \<forall>d \<in> set cs. has_shape T H W d \<Longrightarrow> t < T \<Longrightarrow> y < H \<Longrightarrow> x < W \<Longrightarrow>
   foldl (zip_cube (\<or>)) c cs ! t ! y ! x = (c ! t ! y ! x \<or> (\<exists>d \<in> set cs. d ! t ! y ! x))"
proof (induction cs arbitrary: c)
  case Nil
  then show ?case by simp
next
  case (Cons d ds)
  have sh: "has_shape T H W (zip_cube (\<or>) c d)"
    using Cons.prems by (simp add: has_shape_zip_cube)
  have cell: "zip_cube (\<or>) c d ! t ! y ! x = (c ! t ! y ! x \<or> d ! t ! y ! x)"
    using Cons.prems by (simp add: nth_zip_cube_shape)
  have "foldl (zip_cube (\<or>)) (zip_cube (\<or>) c d) ds ! t ! y ! x =
        (zip_cube (\<or>) c d ! t ! y ! x \<or> (\<exists>e \<in> set ds. e ! t ! y ! x))"
    using Cons.IH [OF sh] Cons.prems by simp
  then show ?case using cell by auto
qed

lemma any_variable_shape:
  "cs \<noteq> [] \<Longrightarrow> \<forall>d \<in> set cs. has_shape T H W d \<Longrightarrow> has_shape T H W (any_variable cs)"
  by (cases cs) (simp_all add: foldl_or_shape)

lemma any_variable_nth:
  "cs \<noteq> [] \<Longrightarrow> \<forall>d \<in> set cs. has_shape T H W d \<Longrightarrow> t < T \<Longrightarrow> y < H \<Longrightarrow> x < W \<Longrightarrow>
   any_variable cs ! t ! y ! x = (\<exists>d \<in> set cs. d ! t ! y ! x)"
proof (cases cs)
  case Nil
  assume "cs \<noteq> []"
  with Nil show ?thesis by simp
next
  case (Cons c ds)
  assume sh: "\<forall>d \<in> set cs. has_shape T H W d" and "t < T" and "y < H" and "x < W"
  have "has_shape T H W c" and "\<forall>d \<in> set ds. has_shape T H W d"
    using sh Cons by simp_all
  then have "foldl (zip_cube (\<or>)) c ds ! t ! y ! x = (c ! t ! y ! x \<or> (\<exists>d \<in> set ds. d ! t ! y ! x))"
    using \<open>t < T\<close> \<open>y < H\<close> \<open>x < W\<close> by (rule foldl_or_nth)
  then show ?thesis using Cons by simp
qed

section \<open>Cloud masking keeps exactly the pixels whose quality flag is not listed\<close>

lemma dims_qa_condition: "dims (eq_False (isin qa vals)) = dims qa"
  by (simp add: eq_False_def isin_def dims_map_cube)

lemma nth_qa_condition:
  assumes "t < length qa" and "y < length (qa ! t)" and "x < length (qa ! t ! y)"
  shows "eq_False (isin qa vals) ! t ! y ! x = (qa ! t ! y ! x \<notin> set vals)"
proof -
  have d: "dims (isin qa vals) = dims qa" by (simp add: isin_def dims_map_cube)
  have t': "t < length (isin qa vals)" using assms(1) d dims_length by metis
  have y': "y < length (isin qa vals ! t)" using assms(1,2) d dims_row by metis
  have x': "x < length (isin qa vals ! t ! y)" using assms d dims_cell by metis
  have "eq_False (isin qa vals) ! t ! y ! x = (isin qa vals ! t ! y ! x = False)"
    unfolding eq_False_def using t' y' x' by (rule nth_map_cube)
  moreover have "isin qa vals ! t ! y ! x = (qa ! t ! y ! x \<in> set vals)"
    unfolding isin_def using assms by (rule nth_map_cube)
  ultimately show ?thesis by simp
qed

lemma nth_where_promote:
  assumes "dims arr = dims cond" and "t < length cond" and "y < length (cond ! t)"
    and "x < length (cond ! t ! y)"
  shows "where_cube (promote arr) cond ! t ! y ! x =
         (if cond ! t ! y ! x then Some (arr ! t ! y ! x) else None)"
proof -
  have ta: "t < length arr" using assms(1,2) dims_length by metis
  have ya: "y < length (arr ! t)" using assms(1-3) dims_row by metis
  have xa: "x < length (arr ! t ! y)" using assms dims_cell by metis
  have dp: "dims (promote arr) = dims cond"
    using assms(1) by (simp add: promote_def dims_map_cube)
  have tp: "t < length (promote arr)" using dp assms(2) dims_length by metis
  have yp: "y < length (promote arr ! t)" using dp assms(2,3) dims_row by metis
  have xp: "x < length (promote arr ! t ! y)" using dp assms(2-4) dims_cell by metis
  have "where_cube (promote arr) cond ! t ! y ! x =
        (if cond ! t ! y ! x then promote arr ! t ! y ! x else None)"
    unfolding where_cube_def using dp tp yp xp by (rule nth_zip_cube)
  moreover have "promote arr ! t ! y ! x = Some (arr ! t ! y ! x)"
    unfolding promote_def using ta ya xa by (rule nth_map_cube)
  ultimately show ?thesis by simp
qed

lemma map_of_Dataset_where:
  "map_of (Dataset_where ds cond) b =
   map_option (\<lambda>a. where_cube (promote a) cond) (map_of ds b)"
  by (simp add: Dataset_where_def map_of_map)

lemma mask_val_listed: "length mask_val = 11 \<and> distinct mask_val"
  by (simp add: mask_val_def)

text \<open>
  C9. When the dataset has its quality band, the cloud-masked dataset exists, and at
  every time step and pixel each band of it holds the loaded value unchanged exactly
  when the quality flag there is none of the eleven listed values, and holds
  not-a-number exactly when the flag is listed. The condition is the same for every
  band, so a listed flag invalidates all bands at that pixel and time together.
\<close>

theorem data_clean_masks_listed_flags:
  assumes qa: "map_of data ''qa_pixel'' = Some qa"
    and t: "t < length qa" and y: "y < length (qa ! t)" and x: "x < length (qa ! t ! y)"
  shows "\<exists>clean. data_clean data = Inr clean \<and>
           (\<forall>b arr. map_of data b = Some arr \<and> dims arr = dims qa \<longrightarrow>
              (\<exists>carr. map_of clean b = Some carr \<and>
                 (carr ! t ! y ! x = Some (arr ! t ! y ! x)) = (qa ! t ! y ! x \<notin> set mask_val) \<and>
                 (carr ! t ! y ! x = None) = (qa ! t ! y ! x \<in> set mask_val))) \<and>
           length mask_val = 11 \<and> distinct mask_val"
proof -
  let ?cond = "eq_False (isin qa mask_val)"
  let ?clean = "Dataset_where data ?cond"
  have run: "data_clean data = Inr ?clean" using qa by (simp add: data_clean_def)
  have dc: "dims ?cond = dims qa" by (rule dims_qa_condition)
  have tc: "t < length ?cond" using dc t dims_length by metis
  have yc: "y < length (?cond ! t)" using dc t y dims_row by metis
  have xc: "x < length (?cond ! t ! y)" using dc t y x dims_cell by metis
  have cell: "?cond ! t ! y ! x = (qa ! t ! y ! x \<notin> set mask_val)"
    using t y x by (rule nth_qa_condition)
  have bands: "\<exists>carr. map_of ?clean b = Some carr \<and>
                 (carr ! t ! y ! x = Some (arr ! t ! y ! x)) = (qa ! t ! y ! x \<notin> set mask_val) \<and>
                 (carr ! t ! y ! x = None) = (qa ! t ! y ! x \<in> set mask_val)"
    if b: "map_of data b = Some arr" and d: "dims arr = dims qa" for b arr
  proof -
    let ?carr = "where_cube (promote arr) ?cond"
    have look: "map_of ?clean b = Some ?carr" using b by (simp add: map_of_Dataset_where)
    have "dims arr = dims ?cond" using d dc by simp
    then have "?carr ! t ! y ! x = (if ?cond ! t ! y ! x then Some (arr ! t ! y ! x) else None)"
      using tc yc xc by (rule nth_where_promote)
    then have val: "?carr ! t ! y ! x =
        (if qa ! t ! y ! x \<notin> set mask_val then Some (arr ! t ! y ! x) else None)"
      using cell by simp
    show ?thesis using look val by simp
  qed
  show ?thesis using run bands mask_val_listed by blast
qed

theorem data_clean_masks_listed_flags_witness:
  "\<exists>clean green. data_clean [(''green'', [[[5, 6]]]), (''qa_pixel'', [[[21824, 22280]]])] = Inr clean \<and>
     map_of clean ''green'' = Some green \<and> green ! 0 ! 0 ! 1 = None"
proof -
  let ?data = "[(''green'', [[[5, 6]]]), (''qa_pixel'', [[[21824, 22280]]])] :: int dataset"
  let ?qa = "[[[21824, 22280]]] :: int cube"
  have qa: "map_of ?data ''qa_pixel'' = Some ?qa" by simp
  have t: "0 < length ?qa" and y: "0 < length (?qa ! 0)" and x: "1 < length (?qa ! 0 ! 0)"
    by simp_all
  obtain clean where run: "data_clean ?data = Inr clean"
    and bands: "\<forall>b arr. map_of ?data b = Some arr \<and> dims arr = dims ?qa \<longrightarrow>
              (\<exists>carr. map_of clean b = Some carr \<and>
                 (carr ! 0 ! 0 ! 1 = Some (arr ! 0 ! 0 ! 1)) = (?qa ! 0 ! 0 ! 1 \<notin> set mask_val) \<and>
                 (carr ! 0 ! 0 ! 1 = None) = (?qa ! 0 ! 0 ! 1 \<in> set mask_val))"
    using data_clean_masks_listed_flags [OF qa t y x] by blast
  let ?green = "[[[5, 6]]] :: int cube"
  have band: "map_of ?data ''green'' = Some ?green \<and> dims ?green = dims ?qa"
    by (simp add: dims_def)
  have "\<exists>carr. map_of clean ''green'' = Some carr \<and>
          (carr ! 0 ! 0 ! 1 = Some (?green ! 0 ! 0 ! 1)) = (?qa ! 0 ! 0 ! 1 \<notin> set mask_val) \<and>
          (carr ! 0 ! 0 ! 1 = None) = (?qa ! 0 ! 0 ! 1 \<in> set mask_val)"
    using spec [OF spec [OF bands, of "''green''"], of ?green] band by (rule mp)
  then obtain carr where look: "map_of clean ''green'' = Some carr"
    and none: "(carr ! 0 ! 0 ! 1 = None) = (?qa ! 0 ! 0 ! 1 \<in> set mask_val)"
    by auto
  have "?qa ! 0 ! 0 ! 1 \<in> set mask_val" by (simp add: mask_val_def)
  then have "carr ! 0 ! 0 ! 1 = None" using none by simp
  then show ?thesis using run look by blast
qed

section \<open>No-data masking makes the bands agree on validity\<close>

lemma no_data_mask_shape:
  assumes "da \<noteq> []" and "\<forall>band \<in> set da. has_shape T H W band"
  shows "has_shape T H W (no_data_mask da)"
proof -
  have "map isnull da \<noteq> []" using assms(1) by simp
  moreover have "\<forall>d \<in> set (map isnull da). has_shape T H W d"
    using assms(2) by (auto simp: isnull_def has_shape_map_cube)
  ultimately show ?thesis unfolding no_data_mask_def by (rule any_variable_shape)
qed

lemma no_data_mask_nth:
  assumes "da \<noteq> []" and sh: "\<forall>band \<in> set da. has_shape T H W band"
    and "t < T" and "y < H" and "x < W"
  shows "no_data_mask da ! t ! y ! x = (\<exists>band \<in> set da. band ! t ! y ! x = None)"
proof -
  have ne: "map isnull da \<noteq> []" using assms(1) by simp
  have shn: "\<forall>d \<in> set (map isnull da). has_shape T H W d"
    using sh by (auto simp: isnull_def has_shape_map_cube)
  have "no_data_mask da ! t ! y ! x = (\<exists>d \<in> set (map isnull da). d ! t ! y ! x)"
    unfolding no_data_mask_def using ne shn assms(3-5) by (rule any_variable_nth)
  also have "\<dots> = (\<exists>band \<in> set da. isnull band ! t ! y ! x)" by auto
  also have "\<dots> = (\<exists>band \<in> set da. band ! t ! y ! x = None)"
  proof -
    have "isnull band ! t ! y ! x = (band ! t ! y ! x = None)" if "band \<in> set da" for band
    proof -
      have "has_shape T H W band" using sh that by simp
      then show ?thesis unfolding isnull_def using assms(3-5) by (rule nth_map_cube_shape)
    qed
    then show ?thesis by blast
  qed
  finally show ?thesis .
qed

lemma mask_no_data_nth:
  assumes sh: "\<forall>band \<in> set da. has_shape T H W band" and b: "b < length da"
    and t: "t < T" and y: "y < H" and x: "x < W"
  shows "mask_no_data da ! b ! t ! y ! x =
         (if \<exists>band \<in> set da. band ! t ! y ! x = None then None else da ! b ! t ! y ! x)"
proof -
  have ne: "da \<noteq> []" using b by auto
  have shb: "has_shape T H W (da ! b)" using sh b by simp
  have shm: "has_shape T H W (no_data_mask da)" using ne sh by (rule no_data_mask_shape)
  then have shi: "has_shape T H W (invert (no_data_mask da))"
    by (simp add: invert_def has_shape_map_cube)
  have inv: "invert (no_data_mask da) ! t ! y ! x = (\<not> no_data_mask da ! t ! y ! x)"
    unfolding invert_def using shm t y x by (rule nth_map_cube_shape)
  have band: "mask_no_data da ! b = where_cube (da ! b) (invert (no_data_mask da))"
    using b by (simp add: mask_no_data_def)
  have "where_cube (da ! b) (invert (no_data_mask da)) ! t ! y ! x =
      (if invert (no_data_mask da) ! t ! y ! x then da ! b ! t ! y ! x else None)"
    unfolding where_cube_def using shb shi t y x by (rule nth_zip_cube_shape)
  then have "mask_no_data da ! b ! t ! y ! x =
      (if \<not> no_data_mask da ! t ! y ! x then da ! b ! t ! y ! x else None)"
    using band inv by simp
  then show ?thesis using no_data_mask_nth [OF ne sh t y x] by auto
qed

lemma mask_no_data_null_iff:
  assumes sh: "\<forall>band \<in> set da. has_shape T H W band" and b: "b < length da"
    and t: "t < T" and y: "y < H" and x: "x < W"
  shows "(mask_no_data da ! b ! t ! y ! x = None) = (\<exists>band \<in> set da. band ! t ! y ! x = None)"
proof (cases "\<exists>band \<in> set da. band ! t ! y ! x = None")
  case True
  then show ?thesis using mask_no_data_nth [OF sh b t y x] by simp
next
  case False
  have "da ! b \<in> set da" using b by simp
  then have "da ! b ! t ! y ! x \<noteq> None" using False by auto
  then show ?thesis using False mask_no_data_nth [OF sh b t y x] by auto
qed

lemma mask_no_data_band_length:
  assumes sh: "\<forall>band \<in> set da. has_shape T H W band" and b: "b < length da"
  shows "length (mask_no_data da ! b) = T"
proof -
  have ne: "da \<noteq> []" using b by auto
  have shb: "has_shape T H W (da ! b)" using sh b by simp
  have "has_shape T H W (no_data_mask da)" using ne sh by (rule no_data_mask_shape)
  then have shi: "has_shape T H W (invert (no_data_mask da))"
    by (simp add: invert_def has_shape_map_cube)
  have "has_shape T H W (where_cube (da ! b) (invert (no_data_mask da)))"
    unfolding where_cube_def using shb shi by (rule has_shape_zip_cube)
  then have "has_shape T H W (mask_no_data da ! b)" using b by (simp add: mask_no_data_def)
  then show ?thesis by (rule has_shape_length)
qed

lemma valid_series_mask_no_data:
  assumes sh: "\<forall>band \<in> set da. has_shape T H W band" and b: "b < length da"
    and b': "b' < length da" and y: "y < H" and x: "x < W"
  shows "valid_series (mask_no_data da) b y x = valid_series (mask_no_data da) b' y x"
proof (rule nth_equalityI)
  have lb: "length (mask_no_data da ! b) = T" using sh b by (rule mask_no_data_band_length)
  have lb': "length (mask_no_data da ! b') = T" using sh b' by (rule mask_no_data_band_length)
  show "length (valid_series (mask_no_data da) b y x) = length (valid_series (mask_no_data da) b' y x)"
    using lb lb' by (simp add: valid_series_def)
  fix t assume "t < length (valid_series (mask_no_data da) b y x)"
  then have t: "t < T" using lb by (simp add: valid_series_def)
  have "(mask_no_data da ! b ! t ! y ! x = None) = (mask_no_data da ! b' ! t ! y ! x = None)"
    using mask_no_data_null_iff [OF sh b t y x] mask_no_data_null_iff [OF sh b' t y x] by simp
  then show "valid_series (mask_no_data da) b y x ! t = valid_series (mask_no_data da) b' y x ! t"
    using t lb lb' by (simp add: valid_series_def del: not_None_eq)
qed

text \<open>
  C10. The notebook stacks the bands of the cloud-masked dataset and invalidates every
  pixel and time step at which some band is null. In the stacked array it obtains, each
  pixel and time step is null in every band or null in none. Hence two bands show the
  same validity bits along time at every pixel, and a reduction along time that chooses
  the time step from the time coordinate and those validity bits (as taking the last or
  the nearest non-null observation does) chooses the same time step for both bands.
\<close>

theorem no_data_mask_aligns_bands:
  assumes run: "stacked_no_data_masked ds = Inr masked"
    and sh: "\<forall>band \<in> set (map snd ds). has_shape T H W band"
    and b: "b < length ds" and b': "b' < length ds" and y: "y < H" and x: "x < W"
  shows "(\<forall>t<T. (\<forall>c<length ds. masked ! c ! t ! y ! x = None) \<or>
                 (\<forall>c<length ds. masked ! c ! t ! y ! x \<noteq> None)) \<and>
         valid_series masked b y x = valid_series masked b' y x \<and>
         (\<forall>pick :: int list \<Rightarrow> bool list \<Rightarrow> nat.
            pick time_coord (valid_series masked b y x) = pick time_coord (valid_series masked b' y x))"
proof -
  let ?da = "map snd ds"
  have m: "masked = mask_no_data ?da"
    using run by (simp add: stacked_no_data_masked_def to_array_def split: if_splits)
  have lb: "b < length ?da" and lb': "b' < length ?da" using b b' by simp_all
  have slots: "(\<forall>c<length ds. masked ! c ! t ! y ! x = None) \<or>
               (\<forall>c<length ds. masked ! c ! t ! y ! x \<noteq> None)" if t: "t < T" for t
  proof -
    have "(masked ! c ! t ! y ! x = None) = (\<exists>band \<in> set ?da. band ! t ! y ! x = None)"
      if "c < length ds" for c
    proof -
      have "c < length ?da" using that by simp
      then show ?thesis unfolding m using sh t y x mask_no_data_null_iff by blast
    qed
    then show ?thesis by blast
  qed
  have series: "valid_series masked b y x = valid_series masked b' y x"
    unfolding m using sh lb lb' y x by (rule valid_series_mask_no_data)
  show ?thesis using slots series by simp
qed

theorem no_data_mask_aligns_bands_witness:
  "\<exists>masked. stacked_no_data_masked
       [(''red'', [[[Some (1::int), None]], [[Some 3, Some 4]]]),
        (''blue'', [[[None, Some 6]], [[Some 7, Some 8]]])] = Inr masked \<and>
     valid_series masked 0 0 0 = valid_series masked 1 0 0 \<and>
     valid_series (map snd
       [(''red'', [[[Some (1::int), None]], [[Some 3, Some 4]]]),
        (''blue'', [[[None, Some 6]], [[Some 7, Some 8]]])]) 0 0 0 \<noteq>
     valid_series (map snd
       [(''red'', [[[Some (1::int), None]], [[Some 3, Some 4]]]),
        (''blue'', [[[None, Some 6]], [[Some 7, Some 8]]])]) 1 0 0"
proof -
  let ?ds = "[(''red'', [[[Some (1::int), None]], [[Some 3, Some 4]]]),
              (''blue'', [[[None, Some 6]], [[Some 7, Some 8]]])]"
  let ?masked = "mask_no_data (map snd ?ds)"
  have run: "stacked_no_data_masked ?ds = Inr ?masked"
    by (simp add: stacked_no_data_masked_def to_array_def)
  have sh: "\<forall>band \<in> set (map snd ?ds). has_shape 2 1 2 band"
    by (simp add: has_shape_def dims_def numeral_2_eq_2)
  have "valid_series ?masked 0 0 0 = valid_series ?masked 1 0 0"
    using no_data_mask_aligns_bands [OF run sh, of 0 1 0 0] by simp
  moreover have "valid_series (map snd ?ds) 0 0 0 \<noteq> valid_series (map snd ?ds) 1 0 0"
    by (simp add: valid_series_def)
  ultimately show ?thesis using run by simp
qed


end
